theory Spec2Isabelle
  imports Complex_Main "HOL-Library.Word" "HOL-Library.Multiset" "HOL-Library.Monad_Syntax"
begin

unbundle bit_operations_syntax

section \<open>Machine integers and kernel macros\<close>

type_synonym u32 = "32 word"
type_synonym u64 = "64 word"
type_synonym u128 = "128 word"

text \<open>
  Modelled from the spec: \<open>BIT\<close> and \<open>GENMASK\<close> are macros of the Linux kernel headers
  (\<open>linux/bits.h\<close>), used by \<open>cyccnt.c\<close> and absent from the source tree. On the 64-bit
  targets of the module \<open>BIT(n)\<close> is \<open>1UL << n\<close> and \<open>GENMASK(h, l)\<close> is the \<open>unsigned long\<close>
  with exactly the bits \<open>l\<close> to \<open>h\<close> set (the source comment at the use: "we set all bits of
  that register").
\<close>

definition BIT :: "nat \<Rightarrow> u64" where
  "BIT n = push_bit n 1"

definition GENMASK :: "nat \<Rightarrow> nat \<Rightarrow> u64" where
  "GENMASK h l = (push_bit l (NOT 0)) AND (drop_bit (64 - 1 - h) (NOT 0))"

section \<open>The kernel module, aarch64 (\<open>cyccnt.c\<close>, lines 11 to 77)\<close>

text \<open>
  The per-CPU state the module touches is the set of system registers named in the inline
  assembly. A register is modelled as a cell holding the last value moved into it; the
  instruction stream (\<open>msr\<close>, \<open>mrs\<close>, \<open>isb\<close>) and the kernel log are recorded in program
  order, so that the order of the read, the barrier and the write can be stated.
\<close>

datatype sysreg = PMINTENCLR_EL1 | PMCNTENSET_EL0 | PMUSERENR_EL0 | PMCR_EL0 | PMCCFILTR_EL0

datatype a64_event =
    A64_printk string nat
  | Msr sysreg u64
  | Mrs sysreg
  | Isb

record a64_cpu =
  cpu_id :: nat
  sysregs :: "sysreg \<Rightarrow> u64"
  a64_events :: "a64_event list"

definition a64_printk :: "string \<Rightarrow> a64_cpu \<Rightarrow> a64_cpu" where
  "a64_printk fmt st = st\<lparr>a64_events := a64_events st @ [A64_printk fmt (cpu_id st)]\<rparr>"

definition msr :: "sysreg \<Rightarrow> u64 \<Rightarrow> a64_cpu \<Rightarrow> a64_cpu" where
  "msr r v st = st\<lparr>sysregs := (sysregs st)(r := v), a64_events := a64_events st @ [Msr r v]\<rparr>"

definition mrs :: "sysreg \<Rightarrow> a64_cpu \<Rightarrow> u64 \<times> a64_cpu" where
  "mrs r st = (sysregs st r, st\<lparr>a64_events := a64_events st @ [Mrs r]\<rparr>)"

definition isb :: "a64_cpu \<Rightarrow> a64_cpu" where
  "isb st = st\<lparr>a64_events := a64_events st @ [Isb]\<rparr>"

definition enable_counter_aarch64 :: "a64_cpu \<Rightarrow> a64_cpu" where
  "enable_counter_aarch64 st0 =
     (let st = a64_printk ''enable pmccntr_el0 on CPU %d'' st0;
          st = msr PMINTENCLR_EL1 (BIT 31) st;
          st = msr PMCNTENSET_EL0 (BIT 31) st;
          st = msr PMUSERENR_EL0 (BIT 0 OR BIT 2 OR BIT 6) st;
          (x, st) = mrs PMCR_EL0 st;
          x = x OR (BIT 0 OR BIT 2);
          st = isb st;
          st = msr PMCR_EL0 x st;
          st = msr PMCCFILTR_EL0 (BIT 27) st
      in st)"

definition disable_counter_aarch64 :: "a64_cpu \<Rightarrow> a64_cpu" where
  "disable_counter_aarch64 st0 =
     (let st = a64_printk ''disable pmccntr_el0 on CPU %d'' st0;
          st = msr PMCNTENSET_EL0 0 st;
          st = msr PMUSERENR_EL0 0 st
      in st)"

text \<open>
  The value the source's own comment (lines 34 to 44) documents for the write to
  \<open>PMCR_EL0\<close>: LC (bit 6) one, DP (bit 5) zero, D (bit 3) zero, C (bit 2) one, E (bit 0)
  one, every other bit conserved.
\<close>

definition pmcr_documented :: "u64 \<Rightarrow> u64" where
  "pmcr_documented v = (v AND NOT (BIT 5 OR BIT 3)) OR (BIT 6 OR BIT 2 OR BIT 0)"

section \<open>The kernel module, RISC-V (\<open>cyccnt.c\<close>, lines 79 to 132)\<close>

text \<open>
  Modelled from the spec: \<open>sbi_ecall\<close>, \<open>struct sbiret\<close>, \<open>csr_write\<close> and the constants
  \<open>SBI_EXT_PMU\<close>, \<open>SBI_EXT_PMU_COUNTER_START\<close>, \<open>SBI_PMU_START_FLAG_SET_INIT_VALUE\<close> and
  \<open>CSR_SCOUNTEREN\<close> come from the kernel's \<open>asm/sbi.h\<close> and \<open>asm/csr.h\<close>, absent from the
  source tree. The three SBI constants are kept symbolic; the firmware's answer is a
  parameter of the model (any \<open>sbiret\<close>); \<open>csr_write\<close> stores the value in the named
  control and status register, addressed by its number.
\<close>

datatype sbi_arg =
    SBI_EXT_PMU
  | SBI_EXT_PMU_COUNTER_START
  | SBI_PMU_START_FLAG_SET_INIT_VALUE
  | Num nat

text \<open>The two fields of \<open>struct sbiret\<close> are of type \<open>long\<close>: 64-bit words read as signed.\<close>

record sbiret =
  error :: u64
  val :: u64

definition CSR_SCOUNTEREN :: nat where
  "CSR_SCOUNTEREN = 0x106"

datatype rv_event =
    Rv_printk string "int list"
  | Sbi_ecall "sbi_arg list"
  | Csr_write nat u64

record rv_cpu =
  hart_id :: nat
  csrs :: "nat \<Rightarrow> u64"
  rv_events :: "rv_event list"

definition rv_printk :: "string \<Rightarrow> int list \<Rightarrow> rv_cpu \<Rightarrow> rv_cpu" where
  "rv_printk fmt args st = st\<lparr>rv_events := rv_events st @ [Rv_printk fmt args]\<rparr>"

definition sbi_ecall :: "(sbi_arg list \<Rightarrow> sbiret) \<Rightarrow> sbi_arg list \<Rightarrow> rv_cpu \<Rightarrow> sbiret \<times> rv_cpu" where
  "sbi_ecall firmware args st = (firmware args, st\<lparr>rv_events := rv_events st @ [Sbi_ecall args]\<rparr>)"

definition csr_write :: "nat \<Rightarrow> u64 \<Rightarrow> rv_cpu \<Rightarrow> rv_cpu" where
  "csr_write r v st = st\<lparr>csrs := (csrs st)(r := v), rv_events := rv_events st @ [Csr_write r v]\<rparr>"

definition enable_counter_riscv :: "(sbi_arg list \<Rightarrow> sbiret) \<Rightarrow> rv_cpu \<Rightarrow> rv_cpu" where
  "enable_counter_riscv firmware st0 =
     (let st = rv_printk ''enable_rdcycle on CPU %d'' [int (hart_id st0)] st0;
          (r, st) = sbi_ecall firmware
             [SBI_EXT_PMU, SBI_EXT_PMU_COUNTER_START,
              Num 0, Num 1, SBI_PMU_START_FLAG_SET_INIT_VALUE, Num 0, Num 0, Num 0] st;
          st = rv_printk ''CPU %d: sbi_ecall() returned %ld, %ld''
                 [int (hart_id st), sint (error r), sint (val r)] st;
          st = csr_write CSR_SCOUNTEREN (GENMASK 31 0) st
      in st)"

definition disable_counter_riscv :: "rv_cpu \<Rightarrow> rv_cpu" where
  "disable_counter_riscv st0 =
     (let st = rv_printk ''disable_rdcycle on CPU %d'' [int (hart_id st0)] st0;
          st = csr_write CSR_SCOUNTEREN 0x2 st
      in st)"

text \<open>
  \<open>init\<close> and \<open>fini\<close> (lines 140 to 151): \<open>on_each_cpu\<close> runs the routine once on every
  online processor, each on its own registers, and waits for all of them.
\<close>

definition init_aarch64 :: "a64_cpu list \<Rightarrow> int \<times> a64_cpu list" where
  "init_aarch64 cpus = (0, map enable_counter_aarch64 cpus)"

definition fini_aarch64 :: "a64_cpu list \<Rightarrow> a64_cpu list" where
  "fini_aarch64 cpus = map disable_counter_aarch64 cpus"

definition init_riscv :: "(sbi_arg list \<Rightarrow> sbiret) \<Rightarrow> rv_cpu list \<Rightarrow> int \<times> rv_cpu list" where
  "init_riscv firmware cpus = (0, map (enable_counter_riscv firmware) cpus)"

definition fini_riscv :: "rv_cpu list \<Rightarrow> rv_cpu list" where
  "fini_riscv cpus = map disable_counter_riscv cpus"

section \<open>The measurement driver (\<open>test_cycle.c\<close>)\<close>

subsection \<open>The cycle reader and the comparator\<close>

text \<open>
  \<open>core_cycles\<close> (lines 45 to 82, one variant per architecture) reads a hardware counter.
  The hardware is outside the program: the model takes the sequence of values the counter
  register delivers, \<open>clk k\<close> for the read number \<open>k\<close> of the run (counted from 0), and
  threads the number of reads done so far. The fences of the x86 and aarch64 variants order
  the read; they carry no value.
\<close>

definition core_cycles :: "(nat \<Rightarrow> u64) \<Rightarrow> nat \<Rightarrow> u64 \<times> nat" where
  "core_cycles clk n = (clk n, Suc n)"

text \<open>\<open>cmp_u64\<close> (lines 88 to 100); the two pointers are dereferenced by the caller.\<close>

definition cmp_u64 :: "u64 \<Rightarrow> u64 \<Rightarrow> int" where
  "cmp_u64 x1 x2 = (if x1 < x2 then - 1 else if x1 = x2 then 0 else 1)"

subsection \<open>C library functions used by the driver\<close>

text \<open>
  \<open>qsort\<close>, \<open>atoi\<close>, \<open>printf\<close> and \<open>EXIT_FAILURE\<close> belong to the C library, not to the
  repository. \<open>qsort(base, nmemb, size, compar)\<close> is specified by ISO C only as sorting the
  first \<open>nmemb\<close> elements into ascending order according to \<open>compar\<close>; it is modelled by an
  insertion sort that takes every decision from the sign of the comparator's result, so
  that the order it produces is the comparator's and not one built into the model.
\<close>

fun qsort_insert :: "('a \<Rightarrow> 'a \<Rightarrow> int) \<Rightarrow> 'a \<Rightarrow> 'a list \<Rightarrow> 'a list" where
  "qsort_insert compar x [] = [x]"
| "qsort_insert compar x (y # ys) =
     (if compar x y \<le> 0 then x # y # ys else y # qsort_insert compar x ys)"

fun qsort_all :: "('a \<Rightarrow> 'a \<Rightarrow> int) \<Rightarrow> 'a list \<Rightarrow> 'a list" where
  "qsort_all compar [] = []"
| "qsort_all compar (x # xs) = qsort_insert compar x (qsort_all compar xs)"

definition qsort :: "'a list \<Rightarrow> nat \<Rightarrow> ('a \<Rightarrow> 'a \<Rightarrow> int) \<Rightarrow> 'a list" where
  "qsort base nmemb compar = qsort_all compar (take nmemb base) @ drop nmemb base"

text \<open>
  \<open>atoi\<close>: optional white space, an optional sign, then decimal digits up to the first
  other character. The value is an unbounded integer here; C leaves \<open>atoi\<close> undefined
  where the value does not fit an \<open>int\<close>.
\<close>

definition isspace :: "char \<Rightarrow> bool" where
  "isspace c = ((of_char c :: nat) = 32 \<or> (9 \<le> (of_char c :: nat) \<and> (of_char c :: nat) \<le> 13))"

definition isdigit :: "char \<Rightarrow> bool" where
  "isdigit c = (48 \<le> (of_char c :: nat) \<and> (of_char c :: nat) \<le> 57)"

fun atoi_digits :: "int \<Rightarrow> string \<Rightarrow> int" where
  "atoi_digits acc [] = acc"
| "atoi_digits acc (c # cs) =
     (if isdigit c then atoi_digits (acc * 10 + (of_char c - 48)) cs else acc)"

definition atoi :: "string \<Rightarrow> int" where
  "atoi s =
     (case dropWhile isspace s of
        [] \<Rightarrow> 0
      | c # cs \<Rightarrow>
          if c = CHR ''-'' then - atoi_digits 0 cs
          else if c = CHR ''+'' then atoi_digits 0 cs
          else atoi_digits 0 (c # cs))"

text \<open>
  Modelled from the spec: \<open>EXIT_FAILURE\<close> is a macro of \<open>stdlib.h\<close>, absent from the source
  tree: the failure exit status, which is nonzero (1 on the supported systems).
\<close>

definition EXIT_FAILURE :: int where
  "EXIT_FAILURE = 1"

text \<open>
  The arithmetic on \<open>double\<close> is that of the C implementation, not of the repository:
  the conversion \<open>(double)\<close> of a \<open>uint64_t\<close>, the division and the value of a decimal
  constant such as \<open>20000.0\<close> are parameters of the model, on a type \<open>'d\<close> of doubles.
\<close>

record 'd double_ops =
  of_u64 :: "u64 \<Rightarrow> 'd"
  fdiv :: "'d \<Rightarrow> 'd \<Rightarrow> 'd"
  dconst :: "nat \<Rightarrow> 'd"

text \<open>
  A call of \<open>printf\<close> or \<open>fprintf\<close> is recorded with its format string (without the final
  newline) and its argument.
\<close>

datatype 'd printf_call =
    Printf_f string 'd
  | Printf_u string nat
  | Printf_s string

fun format_of :: "'d printf_call \<Rightarrow> string" where
  "format_of (Printf_f fmt v) = fmt"
| "format_of (Printf_u fmt v) = fmt"
| "format_of (Printf_s fmt) = fmt"

subsection \<open>Loops, arrays and statements\<close>

text \<open>
  \<open>for (i = i0; i < n; i ++) body\<close> where the body does not use the index.
\<close>

function for_loop :: "nat \<Rightarrow> nat \<Rightarrow> ('s \<Rightarrow> 's) \<Rightarrow> 's \<Rightarrow> 's" where
  "for_loop i n body s = (if i < n then for_loop (Suc i) n body (body s) else s)"
  by pat_completeness auto
termination
  by (relation "measure (\<lambda>(i, n, body, s). n - i)") auto

declare for_loop.simps [simp del]

text \<open>
  Reads and writes of the sample buffer \<open>tt\<close>. An index outside the array is a fault of
  the program: \<open>None\<close>.
\<close>

definition store :: "'a list \<Rightarrow> nat \<Rightarrow> 'a \<Rightarrow> 'a list option" where
  "store a i v = (if i < length a then Some (a[i := v]) else None)"

definition load :: "'a list \<Rightarrow> nat \<Rightarrow> 'a option" where
  "load a i = (if i < length a then Some (a ! i) else None)"

text \<open>
  The statements of the three inner loop bodies, as transformers of the pair of the two
  chain variables \<open>(x, y)\<close>: \<open>x *= y\<close> and \<open>y *= x\<close> (lines 123 to 142 on \<open>uint32_t\<close>, lines
  159 to 178 on \<open>uint64_t\<close>), \<open>x64 ^= x64orig\<close>, \<open>y64 ^= y64orig\<close> and the two assignments
  of the high half of the 128-bit product (lines 202 to 211).
\<close>

definition mul_x :: "'a::len word \<times> 'a word \<Rightarrow> 'a word \<times> 'a word" where
  "mul_x s = (fst s * snd s, snd s)"

definition mul_y :: "'a::len word \<times> 'a word \<Rightarrow> 'a word \<times> 'a word" where
  "mul_y s = (fst s, snd s * fst s)"

definition muls20 :: "('a::len word \<times> 'a word \<Rightarrow> 'a word \<times> 'a word) list" where
  "muls20 =
     [mul_x, mul_y, mul_x, mul_y, mul_x, mul_y, mul_x, mul_y, mul_x, mul_y,
      mul_x, mul_y, mul_x, mul_y, mul_x, mul_y, mul_x, mul_y, mul_x, mul_y]"

definition mulhi :: "u64 \<Rightarrow> u64 \<Rightarrow> u64" where
  "mulhi a b = ucast (drop_bit 64 ((ucast a :: u128) * (ucast b :: u128)))"

definition xor_x :: "u64 \<Rightarrow> u64 \<times> u64 \<Rightarrow> u64 \<times> u64" where
  "xor_x x64orig s = (fst s XOR x64orig, snd s)"

definition xor_y :: "u64 \<Rightarrow> u64 \<times> u64 \<Rightarrow> u64 \<times> u64" where
  "xor_y y64orig s = (fst s, snd s XOR y64orig)"

definition mulhi_x :: "u64 \<times> u64 \<Rightarrow> u64 \<times> u64" where
  "mulhi_x s = (mulhi (fst s) (snd s), snd s)"

definition mulhi_y :: "u64 \<times> u64 \<Rightarrow> u64 \<times> u64" where
  "mulhi_y s = (fst s, mulhi (snd s) (fst s))"

definition mulhis8 :: "(u64 \<times> u64 \<Rightarrow> u64 \<times> u64) list" where
  "mulhis8 = [mulhi_x, mulhi_y, mulhi_x, mulhi_y, mulhi_x, mulhi_y, mulhi_x, mulhi_y]"

definition stmts128 :: "u64 \<Rightarrow> u64 \<Rightarrow> (u64 \<times> u64 \<Rightarrow> u64 \<times> u64) list" where
  "stmts128 x64orig y64orig = [xor_x x64orig, xor_y y64orig] @ mulhis8"

definition run_stmts :: "('s \<Rightarrow> 's) list \<Rightarrow> 's \<Rightarrow> 's" where
  "run_stmts stmts s = fold (\<lambda>f. f) stmts s"

subsection \<open>The measurement loop\<close>

text \<open>
  The outer loop is written three times in \<open>main\<close> (lines 120 to 148, 156 to 184 and 199
  to 217) with the same text apart from the statements of the inner loop, which are the
  parameter \<open>stmts\<close> here. The state is the pair of chain variables, the sample buffer and
  the number of counter reads done.
\<close>

function measure_loop ::
  "(nat \<Rightarrow> u64) \<Rightarrow> ('w \<Rightarrow> 'w) list \<Rightarrow> nat \<Rightarrow> 'w \<times> u64 list \<times> nat \<Rightarrow> ('w \<times> u64 list \<times> nat) option"
where
  "measure_loop clk stmts i (w, tt, n) =
     (if i < 120 then
        (let (t_begin, n1) = core_cycles clk n;
             w1 = for_loop 0 1000 (run_stmts stmts) w;
             (t_end, n2) = core_cycles clk n1
         in if 20 \<le> i then
              (case store tt (i - 20) (t_end - t_begin) of
                 None \<Rightarrow> None
               | Some tt1 \<Rightarrow> measure_loop clk stmts (Suc i) (w1, tt1, n2))
            else measure_loop clk stmts (Suc i) (w1, tt, n2))
      else Some (w, tt, n))"
  by pat_completeness auto
termination
  by (relation "measure (\<lambda>(clk, stmts, i, s). 120 - i)") auto

declare measure_loop.simps [simp del]

subsection \<open>\<open>main\<close> (lines 102 to 232)\<close>

record 'd run =
  stdout :: "'d printf_call list"
  stderr :: "'d printf_call list"
  exit_status :: int
  cycle_reads :: nat

text \<open>The values of \<open>(x32, y32)\<close> when the first measurement starts (lines 114 to 119).\<close>

definition start32 :: "int \<Rightarrow> u32 \<times> u32" where
  "start32 st =
     (let x32 = word_of_int st;
          y32 = x32;
          (x32, y32) = for_loop 0 100 mul_y (x32, y32);
          x32 = y32
      in (x32, y32))"

text \<open>The values of \<open>(x64, y64)\<close> when the second measurement starts (lines 153 to 155).\<close>

definition start64 :: "u32 \<Rightarrow> u64 \<times> u64" where
  "start64 x32 =
     (let x64 = ucast x32;
          x64 = x64 * (x64 * x64);
          y64 = x64
      in (x64, y64))"

text \<open>
  The values of \<open>(x64, y64)\<close>, which are also \<open>(x64orig, y64orig)\<close>, when the third
  measurement starts (lines 194 to 198).
\<close>

definition start128 :: "u64 \<times> u64 \<Rightarrow> u64 \<times> u64" where
  "start128 w =
     (let x64 = fst w;
          y64 = snd w;
          t64 = push_bit 63 (of_bool (drop_bit 1 y64 \<noteq> 0));
          x64 = x64 OR t64;
          y64 = y64 OR t64
      in (x64, y64))"

text \<open>Lines 225 to 230: the value passed to the last \<open>printf\<close>.\<close>

definition fold_bytes :: "u64 \<Rightarrow> u32" where
  "fold_bytes x64 =
     (let (x, x64) = for_loop 0 8 (\<lambda>(x, x64). (x XOR ucast x64, drop_bit 8 x64)) (0, x64)
      in x AND 0xFF)"

text \<open>
  \<open>fp\<close> holds the operations on \<open>double\<close>;
  \<open>has_int128\<close> stands for the condition of the \<open>#if\<close> of line 188; \<open>junk\<close> is the content
  of the uninitialised array \<open>tt\<close>; \<open>argv\<close> is the argument vector with the program name,
  so that \<open>argc\<close> is its length. The result is \<open>None\<close> when an array index is out of range.
\<close>

definition main ::
  "'d double_ops \<Rightarrow> bool \<Rightarrow> (nat \<Rightarrow> u64) \<Rightarrow> (nat \<Rightarrow> u64) \<Rightarrow> string list \<Rightarrow> 'd run option"
where
  "main fp has_int128 clk junk argv =
     (if length argv \<noteq> 2 then
        Some \<lparr>stdout = [], stderr = [Printf_s ''usage: test_cycle [ 0 | 1 | 3 ]''],
              exit_status = EXIT_FAILURE, cycle_reads = 0\<rparr>
      else do {
        let st = atoi (argv ! 1);
        let tt = map junk [0..<100];
        let w32 = start32 st;
        (w32, tt, n) \<leftarrow> measure_loop clk muls20 0 (w32, tt, 0);
        let tt = qsort tt 100 cmp_u64;
        m \<leftarrow> load tt 50;
        let out = [Printf_f ''32x32->32 muls:  %7.3f'' (fdiv fp (of_u64 fp m) (dconst fp 20000))];
        let w64 = start64 (fst w32);
        (w64, tt, n) \<leftarrow> measure_loop clk muls20 0 (w64, tt, n);
        let tt = qsort tt 100 cmp_u64;
        m \<leftarrow> load tt 50;
        let out = out @ [Printf_f ''64x64->64 muls:  %7.3f'' (fdiv fp (of_u64 fp m) (dconst fp 20000))];
        (w64, tt, n, out) \<leftarrow>
          (if has_int128 then do {
             let w = start128 w64;
             (w, tt, n) \<leftarrow> measure_loop clk (stmts128 (fst w) (snd w)) 0 (w, tt, n);
             let tt = qsort tt 100 cmp_u64;
             m \<leftarrow> load tt 50;
             Some (w, tt, n, out @ [Printf_f ''64x64->128 muls: %7.3f'' (fdiv fp (of_u64 fp m) (dconst fp 8000))])
           } else Some (w64, tt, n, out));
        let x = fold_bytes (fst w64);
        Some \<lparr>stdout = out @ [Printf_u ''(%u)'' (unat x)], stderr = [],
              exit_status = 0, cycle_reads = n\<rparr>
      })"

subsection \<open>The chain of values of a run\<close>

text \<open>
  The states the chain variables pass through: \<open>trace_stmts\<close> lists the state after each
  statement. A measurement executes the statements of its inner body 1000 times in each
  of the 120 outer iterations; \<open>chain\<close> is the starting state followed by the state after
  each of these statements.
\<close>

fun trace_stmts :: "('s \<Rightarrow> 's) list \<Rightarrow> 's \<Rightarrow> 's list" where
  "trace_stmts [] s = []"
| "trace_stmts (f # fs) s = f s # trace_stmts fs (f s)"

definition all_stmts :: "('s \<Rightarrow> 's) list \<Rightarrow> ('s \<Rightarrow> 's) list" where
  "all_stmts stmts = concat (replicate (120 * 1000) stmts)"

definition chain :: "('s \<Rightarrow> 's) list \<Rightarrow> 's \<Rightarrow> 's list" where
  "chain stmts w = w # trace_stmts (all_stmts stmts) w"

text \<open>
  The chains of the three workloads for the integer \<open>st\<close> read from the command line. The
  first one starts with the 100 multiplications of lines 116 to 118.
\<close>

definition prepare32 :: "int \<Rightarrow> (u32 \<times> u32) list" where
  "prepare32 st = (word_of_int st, word_of_int st)
     # trace_stmts (replicate 100 mul_y) (word_of_int st, word_of_int st)"

definition chain32 :: "int \<Rightarrow> (u32 \<times> u32) list" where
  "chain32 st = prepare32 st @ chain muls20 (start32 st)"

definition chain64 :: "int \<Rightarrow> (u64 \<times> u64) list" where
  "chain64 st = chain muls20 (start64 (fst (last (chain32 st))))"

definition chain128 :: "int \<Rightarrow> (u64 \<times> u64) list" where
  "chain128 st =
     (let w = start128 (last (chain64 st)) in chain (stmts128 (fst w) (snd w)) w)"

subsection \<open>The reduction of the samples, as the specification words it\<close>

text \<open>
  One delta per outer iteration, between the two counter reads of that iteration; the first
  20 dropped; the remaining 100 sorted; the element of rank 50 (from 0) taken. \<open>n\<close> is the
  number of counter reads done before the measurement starts.
\<close>

definition delta :: "(nat \<Rightarrow> u64) \<Rightarrow> nat \<Rightarrow> nat \<Rightarrow> u64" where
  "delta clk n i = clk (n + 2 * i + 1) - clk (n + 2 * i)"

definition deltas :: "(nat \<Rightarrow> u64) \<Rightarrow> nat \<Rightarrow> u64 list" where
  "deltas clk n = map (delta clk n) [0..<120]"

definition kept_samples :: "(nat \<Rightarrow> u64) \<Rightarrow> nat \<Rightarrow> u64 list" where
  "kept_samples clk n = drop 20 (deltas clk n)"

definition median_cost :: "(nat \<Rightarrow> u64) \<Rightarrow> nat \<Rightarrow> u64" where
  "median_cost clk n = sort (kept_samples clk n) ! 50"

text \<open>The eight bytes of a 64-bit value and their exclusive-or.\<close>

definition byte_of :: "u64 \<Rightarrow> nat \<Rightarrow> 8 word" where
  "byte_of v i = ucast (drop_bit (8 * i) v)"

definition xor_of_bytes :: "u64 \<Rightarrow> 8 word" where
  "xor_of_bytes v =
     byte_of v 0 XOR byte_of v 1 XOR byte_of v 2 XOR byte_of v 3 XOR
     byte_of v 4 XOR byte_of v 5 XOR byte_of v 6 XOR byte_of v 7"

subsection \<open>Auxiliary notions of the proofs\<close>

text \<open>
  The inner loop as an iteration of its body, and the content of the sample buffer when
  the outer loop is at iteration \<open>i\<close> with \<open>n\<close> counter reads done: the slots of the
  iterations still to come hold their deltas, the others what they held.
\<close>

definition inner_loop :: "('w \<Rightarrow> 'w) list \<Rightarrow> 'w \<Rightarrow> 'w" where
  "inner_loop stmts = run_stmts stmts ^^ 1000"

definition samples_from :: "(nat \<Rightarrow> u64) \<Rightarrow> nat \<Rightarrow> nat \<Rightarrow> u64 list \<Rightarrow> u64 list" where
  "samples_from clk n i tt =
     map (\<lambda>j. if i \<le> j + 20 then delta clk n (j + 20 - i) else tt ! j) [0..<100]"

text \<open>
  Predicates on the pair of chain variables (both 0 or 1; both odd), the projection of the
  pair on its four low bits, and a sample sequence of counter values for the examples: the
  read number \<open>k\<close> returns \<open>k * k\<close>.
\<close>

definition bit01 :: "u64 \<times> u64 \<Rightarrow> bool" where
  "bit01 s = ((fst s = 0 \<or> fst s = 1) \<and> (snd s = 0 \<or> snd s = 1))"

definition both_odd :: "'a::len word \<times> 'a word \<Rightarrow> bool" where
  "both_odd s = (odd (fst s) \<and> odd (snd s))"

definition down4 :: "'a::len word \<times> 'a word \<Rightarrow> 4 word \<times> 4 word" where
  "down4 s = (ucast (fst s), ucast (snd s))"

definition clk_sq :: "nat \<Rightarrow> u64" where
  "clk_sq k = of_nat (k * k)"

text \<open>
  A second sample sequence, on which every delta wraps around: the counter reads 0 at the
  start and \<open>2^64 - 2\<close> at the end of every outer iteration.
\<close>

definition clk_wrap :: "nat \<Rightarrow> u64" where
  "clk_wrap k = (if even k then 0 else - 2)"

subsection \<open>IEEE 754 binary64 as an instance of the operations on \<open>double\<close>\<close>

text \<open>
  The instance used to evaluate runs: a double is the real number it denotes, and every
  operation rounds the exact result to the nearest number with 53 significant bits, ties
  to the even one. The values of the program lie between \<open>1 / 20000\<close> and \<open>2^64\<close>, where
  binary64 neither overflows nor is subnormal. \<open>ilog2 n\<close> is the position of the highest
  bit of \<open>n\<close>, \<open>fl2 x\<close> the binary exponent of a positive \<open>x\<close>.
\<close>

function ilog2 :: "nat \<Rightarrow> nat" where
  "ilog2 n = (if n < 2 then 0 else Suc (ilog2 (n div 2)))"
  by pat_completeness auto
termination
  by (relation "measure id") auto

declare ilog2.simps [simp del]

definition round_half_even :: "real \<Rightarrow> int" where
  "round_half_even q =
     (let f = \<lfloor>q\<rfloor>; r = q - of_int f
      in if r < 1 / 2 then f else if 1 / 2 < r then f + 1 else if even f then f else f + 1)"

definition pow2 :: "int \<Rightarrow> real" where
  "pow2 e = (if 0 \<le> e then 2 ^ nat e else 1 / 2 ^ nat (- e))"

definition fl2 :: "real \<Rightarrow> int" where
  "fl2 x =
     (if 1 \<le> x then int (ilog2 (nat \<lfloor>x\<rfloor>))
      else (let j = ilog2 (nat \<lfloor>1 / x\<rfloor>)
            in if x * 2 ^ j = 1 then - int j else - int j - 1))"

definition round53 :: "real \<Rightarrow> real" where
  "round53 x =
     (if x \<le> 0 then 0
      else (let s = pow2 (fl2 x - 52) in of_int (round_half_even (x / s)) * s))"

definition ieee_double :: "real double_ops" where
  "ieee_double =
     \<lparr>of_u64 = (\<lambda>m. round53 (real (unat m))),
      fdiv = (\<lambda>a b. round53 (a / b)),
      dconst = (\<lambda>n. round53 (real n))\<rparr>"

section \<open>The kernel module: what the enable and disable sequences write\<close>

lemma BIT_simps: "BIT 0 = 1" "BIT 1 = 2" "BIT (Suc 0) = 2" "BIT 2 = 4" "BIT 3 = 8" "BIT 5 = 32" "BIT 6 = 64"
  by (simp_all add: BIT_def)

lemma GENMASK_31_0: "GENMASK 31 0 = 0xFFFFFFFF"
  by (simp add: GENMASK_def mask_eq_exp_minus_1)

lemmas a64_defs = a64_printk_def msr_def mrs_def isb_def Let_def
lemmas rv_defs = rv_printk_def sbi_ecall_def csr_write_def Let_def

lemma enable_counter_aarch64_sysregs:
  "sysregs (enable_counter_aarch64 st) =
     (sysregs st)(PMINTENCLR_EL1 := BIT 31, PMCNTENSET_EL0 := BIT 31, PMUSERENR_EL0 := 0x45,
       PMCR_EL0 := sysregs st PMCR_EL0 OR 5, PMCCFILTR_EL0 := BIT 27)"
  by (simp add: enable_counter_aarch64_def a64_defs BIT_simps)

lemma enable_counter_aarch64_events:
  "a64_events (enable_counter_aarch64 st) = a64_events st @
     [A64_printk ''enable pmccntr_el0 on CPU %d'' (cpu_id st),
      Msr PMINTENCLR_EL1 (BIT 31), Msr PMCNTENSET_EL0 (BIT 31), Msr PMUSERENR_EL0 0x45,
      Mrs PMCR_EL0, Isb, Msr PMCR_EL0 (sysregs st PMCR_EL0 OR 5), Msr PMCCFILTR_EL0 (BIT 27)]"
  by (simp add: enable_counter_aarch64_def a64_defs BIT_simps)

text \<open>
  C1. The claim: whatever \<open>PMCR_EL0\<close> holds, the value written back has bit 6 set, bits 5
  and 3 cleared, bits 2 and 0 set and every other bit as before, which is what the comment
  in the source documents (\<open>pmcr_documented\<close>). The code only sets bits 0 and 2
  (\<open>enable_counter_aarch64_sysregs\<close>: the value written is the old one \<open>OR 5\<close>), with the
  barrier between the read and the write (\<open>enable_counter_aarch64_events\<close>). On a register
  that holds \<open>0x28\<close> (bits 5 and 3 set, bit 6 clear) it writes \<open>0x2D\<close>, where the documented
  value is \<open>0x45\<close>.
\<close>

theorem enable_counter_pmcr_at_0x28:
  "sysregs (enable_counter_aarch64
      \<lparr>cpu_id = 0, sysregs = (\<lambda>r. 0)(PMCR_EL0 := 0x28), a64_events = []\<rparr>) PMCR_EL0 = 0x2D
   \<and> pmcr_documented 0x28 = 0x45"
  by (simp add: enable_counter_aarch64_sysregs pmcr_documented_def BIT_simps)

text \<open>
  C4. Deactivation writes zero to \<open>PMCNTENSET_EL0\<close> and \<open>PMUSERENR_EL0\<close> and nothing else
  on aarch64, and writes the timer-only value (bit 1) to \<open>scounteren\<close> and nothing else on
  RISC-V: the register files are the old ones updated at these registers only, and the
  instruction streams grow by exactly these writes. In particular \<open>PMCR_EL0\<close>,
  \<open>PMCCFILTR_EL0\<close> and \<open>PMINTENCLR_EL1\<close> keep what the enable sequence left in them.
\<close>

theorem disable_counter_frame:
  "sysregs (disable_counter_aarch64 st) = (sysregs st)(PMCNTENSET_EL0 := 0, PMUSERENR_EL0 := 0)
   \<and> a64_events (disable_counter_aarch64 st) = a64_events st @
       [A64_printk ''disable pmccntr_el0 on CPU %d'' (cpu_id st),
        Msr PMCNTENSET_EL0 0, Msr PMUSERENR_EL0 0]
   \<and> sysregs (disable_counter_aarch64 st) PMCR_EL0 = sysregs st PMCR_EL0
   \<and> sysregs (disable_counter_aarch64 st) PMCCFILTR_EL0 = sysregs st PMCCFILTR_EL0
   \<and> sysregs (disable_counter_aarch64 st) PMINTENCLR_EL1 = sysregs st PMINTENCLR_EL1
   \<and> csrs (disable_counter_riscv rst) = (csrs rst)(CSR_SCOUNTEREN := BIT 1)
   \<and> rv_events (disable_counter_riscv rst) = rv_events rst @
       [Rv_printk ''disable_rdcycle on CPU %d'' [int (hart_id rst)],
        Csr_write CSR_SCOUNTEREN (BIT 1)]"
  by (simp add: disable_counter_aarch64_def disable_counter_riscv_def a64_defs rv_defs BIT_simps)

text \<open>
  C5. On RISC-V the enable sequence issues the SBI request to start counter 0 with the
  flag \<open>SBI_PMU_START_FLAG_SET_INIT_VALUE\<close> first; whatever the firmware answers, it logs
  the two fields of the answer and then writes \<open>scounteren\<close> with the 32 low bits set.
  The statement holds for every \<open>firmware\<close>, so for every error code returned.
\<close>

theorem enable_counter_riscv_any_outcome:
  "rv_events (enable_counter_riscv firmware st) = rv_events st @
     [Rv_printk ''enable_rdcycle on CPU %d'' [int (hart_id st)],
      Sbi_ecall [SBI_EXT_PMU, SBI_EXT_PMU_COUNTER_START,
                 Num 0, Num 1, SBI_PMU_START_FLAG_SET_INIT_VALUE, Num 0, Num 0, Num 0],
      Rv_printk ''CPU %d: sbi_ecall() returned %ld, %ld''
        [int (hart_id st),
         sint (error (firmware [SBI_EXT_PMU, SBI_EXT_PMU_COUNTER_START,
                 Num 0, Num 1, SBI_PMU_START_FLAG_SET_INIT_VALUE, Num 0, Num 0, Num 0])),
         sint (val (firmware [SBI_EXT_PMU, SBI_EXT_PMU_COUNTER_START,
                 Num 0, Num 1, SBI_PMU_START_FLAG_SET_INIT_VALUE, Num 0, Num 0, Num 0]))],
      Csr_write CSR_SCOUNTEREN 0xFFFFFFFF]
   \<and> csrs (enable_counter_riscv firmware st) = (csrs st)(CSR_SCOUNTEREN := 0xFFFFFFFF)
   \<and> (0xFFFFFFFF :: u64) = mask 32"
  by (simp add: enable_counter_riscv_def rv_defs GENMASK_31_0 mask_eq_exp_minus_1)

section \<open>The driver: arguments and the comparator\<close>

text \<open>
  C7. With an argument vector of any length but 2 (no argument, or two and more), \<open>main\<close>
  prints the usage line to the error stream, prints nothing to the output stream, reads
  the cycle counter not once and exits with \<open>EXIT_FAILURE\<close>, which is not zero.
\<close>

theorem main_usage:
  "length argv \<noteq> 2 \<Longrightarrow>
     main fp has_int128 clk junk argv =
       Some \<lparr>stdout = [], stderr = [Printf_s ''usage: test_cycle [ 0 | 1 | 3 ]''],
             exit_status = EXIT_FAILURE, cycle_reads = 0\<rparr>
     \<and> EXIT_FAILURE \<noteq> 0"
  by (simp add: main_def EXIT_FAILURE_def)

theorem main_usage_witness:
  "length [''test_cycle''] \<noteq> 2 \<and> length [''test_cycle'', ''3'', ''1''] \<noteq> 2
   \<and> main ieee_double True (\<lambda>k. 0) (\<lambda>k. 0) [''test_cycle''] =
       Some \<lparr>stdout = [], stderr = [Printf_s ''usage: test_cycle [ 0 | 1 | 3 ]''],
             exit_status = 1, cycle_reads = 0\<rparr>
   \<and> main ieee_double True (\<lambda>k. 0) (\<lambda>k. 0) [''test_cycle'', ''3'', ''1''] =
       Some \<lparr>stdout = [], stderr = [Printf_s ''usage: test_cycle [ 0 | 1 | 3 ]''],
             exit_status = 1, cycle_reads = 0\<rparr>"
  using main_usage [where argv = "[''test_cycle'']" and fp = ieee_double
          and ?has_int128.0 = True and clk = "\<lambda>k. 0" and junk = "\<lambda>k. 0"]
        main_usage [where argv = "[''test_cycle'', ''3'', ''1'']" and fp = ieee_double
          and ?has_int128.0 = True and clk = "\<lambda>k. 0" and junk = "\<lambda>k. 0"]
  by (simp add: EXIT_FAILURE_def)

lemma cmp_u64_le_iff: "cmp_u64 x y \<le> 0 \<longleftrightarrow> x \<le> y"
  by (auto simp: cmp_u64_def)

lemma qsort_insert_cmp_u64: "qsort_insert cmp_u64 x ys = insort x ys"
  by (induction ys) (simp_all add: cmp_u64_le_iff)

lemma qsort_all_cmp_u64: "qsort_all cmp_u64 xs = sort xs"
  by (induction xs) (simp_all add: qsort_insert_cmp_u64)

lemma qsort_cmp_u64: "qsort tt nmemb cmp_u64 = sort (take nmemb tt) @ drop nmemb tt"
  by (simp add: qsort_def qsort_all_cmp_u64)

lemma sorted_unat: "sorted xs \<Longrightarrow> sorted_wrt (\<lambda>v w. unat v \<le> unat w) (xs :: u64 list)"
  by (erule sorted_wrt_mono_rel [rotated]) (simp add: word_le_nat_alt)

text \<open>
  C10. \<open>cmp_u64 a b\<close> is \<open>-1\<close>, \<open>0\<close> or \<open>1\<close> as \<open>a\<close> is below, equal to or above \<open>b\<close> as
  unsigned 64-bit integers; it is antisymmetric; and \<open>qsort\<close> driven by it leaves the
  sorted part of the buffer in nondecreasing unsigned order, with the same elements.
\<close>

theorem cmp_u64_total_order:
  "(unat a < unat b \<longrightarrow> cmp_u64 a b = - 1)
   \<and> (a = b \<longrightarrow> cmp_u64 a b = 0)
   \<and> (unat b < unat a \<longrightarrow> cmp_u64 a b = 1)
   \<and> cmp_u64 a b = - cmp_u64 b a
   \<and> sorted_wrt (\<lambda>v w. unat v \<le> unat w) (take nmemb (qsort tt nmemb cmp_u64))
   \<and> mset (qsort tt nmemb cmp_u64) = mset tt"
proof -
  have ord: "(unat a < unat b \<longrightarrow> cmp_u64 a b = - 1) \<and> (a = b \<longrightarrow> cmp_u64 a b = 0)
      \<and> (unat b < unat a \<longrightarrow> cmp_u64 a b = 1)"
    by (auto simp: cmp_u64_def word_less_nat_alt)
  have anti: "cmp_u64 a b = - cmp_u64 b a"
    by (auto simp: cmp_u64_def)
  have "take nmemb (qsort tt nmemb cmp_u64) = sort (take nmemb tt)"
    by (simp add: qsort_cmp_u64 linear)
  then have srt: "sorted_wrt (\<lambda>v w. unat v \<le> unat w) (take nmemb (qsort tt nmemb cmp_u64))"
    by (simp add: sorted_unat)
  have "mset (qsort tt nmemb cmp_u64) = mset (take nmemb tt) + mset (drop nmemb tt)"
    by (simp add: qsort_cmp_u64)
  also have "\<dots> = mset (take nmemb tt @ drop nmemb tt)"
    by (simp only: mset_append)
  also have "\<dots> = mset tt"
    by (simp only: append_take_drop_id)
  finally show ?thesis using ord anti srt by blast
qed

theorem cmp_u64_total_order_witness:
  "unat (1 :: u64) < unat (2 :: u64) \<and> cmp_u64 1 2 = - 1 \<and> cmp_u64 2 2 = 0 \<and> cmp_u64 2 1 = 1
   \<and> qsort [3, 1, 2] 3 cmp_u64 = [1, 2, 3]"
  using cmp_u64_total_order [where a = 1 and b = 2 and tt = "[3, 1, 2]" and nmemb = 3]
    cmp_u64_total_order [where a = 2 and b = 2 and tt = "[]" and nmemb = 0]
    cmp_u64_total_order [where a = 2 and b = 1 and tt = "[]" and nmemb = 0]
  by (simp add: qsort_def cmp_u64_def)

section \<open>The measurement loop\<close>

lemma for_loop_funpow: "for_loop i n body s = (body ^^ (n - i)) s"
proof (induction i n body s rule: for_loop.induct)
  case (1 i n body s)
  show ?case
  proof (cases "i < n")
    case True
    then have "n - i = Suc (n - Suc i)" by simp
    with 1 True show ?thesis
      by (simp add: for_loop.simps [of i] funpow_swap1)
  next
    case False
    then show ?thesis by (simp add: for_loop.simps [of i])
  qed
qed

lemma run_stmts_Nil: "run_stmts [] s = s"
  by (simp add: run_stmts_def)

lemma run_stmts_Cons: "run_stmts (f # fs) s = run_stmts fs (f s)"
  by (simp add: run_stmts_def)

lemma run_stmts_append: "run_stmts (fs @ gs) s = run_stmts gs (run_stmts fs s)"
  by (simp add: run_stmts_def)

lemma run_stmts_concat_replicate:
  "run_stmts (concat (replicate k fs)) s = (run_stmts fs ^^ k) s"
  by (induction k arbitrary: s) (simp_all add: run_stmts_Nil run_stmts_append funpow_swap1)

lemma last_trace_stmts: "last (s # trace_stmts fs s) = run_stmts fs s"
  by (induction fs arbitrary: s) (simp_all add: run_stmts_Nil run_stmts_Cons)

lemma length_samples_from: "length (samples_from clk n i tt) = 100"
  by (simp add: samples_from_def)

lemma samples_from_done: "length tt = 100 \<Longrightarrow> samples_from clk n 120 tt = tt"
  by (rule nth_equalityI) (simp_all add: samples_from_def)

lemma delta_shift: "delta clk (Suc (Suc n)) k = delta clk n (Suc k)"
  by (simp add: delta_def)

lemma samples_from_skip:
  assumes "i < 20"
  shows "samples_from clk (Suc (Suc n)) (Suc i) tt = samples_from clk n i tt"
proof (rule nth_equalityI)
  show "length (samples_from clk (Suc (Suc n)) (Suc i) tt) = length (samples_from clk n i tt)"
    by (simp add: length_samples_from)
next
  fix j assume "j < length (samples_from clk (Suc (Suc n)) (Suc i) tt)"
  then have j: "j < 100" by (simp add: length_samples_from)
  from assms have "Suc (j + 20 - Suc i) = j + 20 - i" by simp
  with assms j show "samples_from clk (Suc (Suc n)) (Suc i) tt ! j = samples_from clk n i tt ! j"
    by (simp add: samples_from_def delta_shift)
qed

lemma samples_from_store:
  assumes "20 \<le> i" "i < 120" "length tt = 100"
  shows "samples_from clk (Suc (Suc n)) (Suc i) (tt[i - 20 := clk (Suc n) - clk n])
           = samples_from clk n i tt"
proof (rule nth_equalityI)
  show "length (samples_from clk (Suc (Suc n)) (Suc i) (tt[i - 20 := clk (Suc n) - clk n]))
          = length (samples_from clk n i tt)"
    by (simp add: length_samples_from)
next
  fix j
  assume "j < length (samples_from clk (Suc (Suc n)) (Suc i) (tt[i - 20 := clk (Suc n) - clk n]))"
  then have j: "j < 100" by (simp add: length_samples_from)
  consider "Suc i \<le> j + 20" | "j + 20 = i" | "j + 20 < i" by linarith
  then show "samples_from clk (Suc (Suc n)) (Suc i) (tt[i - 20 := clk (Suc n) - clk n]) ! j
               = samples_from clk n i tt ! j"
  proof cases
    case 1
    then have "Suc (j + 20 - Suc i) = j + 20 - i" by simp
    with 1 j show ?thesis by (simp add: samples_from_def delta_shift)
  next
    case 2
    then have "i - 20 = j" by simp
    with 2 j assms show ?thesis by (simp add: samples_from_def delta_def)
  next
    case 3
    then have "i - 20 \<noteq> j" by simp
    with 3 j assms show ?thesis by (simp add: samples_from_def)
  qed
qed

lemma measure_loop_from:
  assumes "i \<le> 120" "length tt = 100"
  shows "measure_loop clk stmts i (w, tt, n) =
           Some ((inner_loop stmts ^^ (120 - i)) w, samples_from clk n i tt, n + 2 * (120 - i))"
  using assms
proof (induction k \<equiv> "120 - i" arbitrary: i w tt n)
  case 0
  then have "i = 120" by simp
  with 0 show ?case
    by (simp add: measure_loop.simps [of _ _ 120] samples_from_done)
next
  case (Suc k)
  then have i: "i < 120" and k: "120 - Suc i = k" and rest: "120 - i = Suc k" by simp_all
  let ?w1 = "inner_loop stmts w"
  have inner: "for_loop 0 1000 (run_stmts stmts) w = ?w1"
    by (simp add: for_loop_funpow inner_loop_def)
  show ?case
  proof (cases "20 \<le> i")
    case True
    let ?tt1 = "tt[i - 20 := clk (Suc n) - clk n]"
    from True i Suc.prems have st: "store tt (i - 20) (clk (Suc n) - clk n) = Some ?tt1"
      by (simp add: store_def)
    have "measure_loop clk stmts i (w, tt, n)
            = measure_loop clk stmts (Suc i) (?w1, ?tt1, Suc (Suc n))"
      using True i by (simp add: measure_loop.simps [of _ _ i] core_cycles_def inner st)
    also have "\<dots> = Some ((inner_loop stmts ^^ k) ?w1,
                 samples_from clk (Suc (Suc n)) (Suc i) ?tt1, Suc (Suc n) + 2 * k)"
      using Suc.hyps(1) [of "Suc i" ?tt1 ?w1 "Suc (Suc n)"] i k Suc.prems by simp
    finally show ?thesis
      using True i Suc.prems rest by (simp add: samples_from_store funpow_swap1)
  next
    case False
    have "measure_loop clk stmts i (w, tt, n)
            = measure_loop clk stmts (Suc i) (?w1, tt, Suc (Suc n))"
      using False i by (simp add: measure_loop.simps [of _ _ i] core_cycles_def inner)
    also have "\<dots> = Some ((inner_loop stmts ^^ k) ?w1,
                 samples_from clk (Suc (Suc n)) (Suc i) tt, Suc (Suc n) + 2 * k)"
      using Suc.hyps(1) [of "Suc i" tt ?w1 "Suc (Suc n)"] i k Suc.prems by simp
    finally show ?thesis
      using False rest by (simp add: samples_from_skip funpow_swap1)
  qed
qed

lemma samples_from_0: "samples_from clk n 0 tt = kept_samples clk n"
proof (rule nth_equalityI)
  show "length (samples_from clk n 0 tt) = length (kept_samples clk n)"
    by (simp add: length_samples_from kept_samples_def deltas_def)
next
  fix j assume "j < length (samples_from clk n 0 tt)"
  then have j: "j < 100" by (simp add: length_samples_from)
  then have "kept_samples clk n ! j = delta clk n (20 + j)"
    by (simp add: kept_samples_def deltas_def del: upt_rec_numeral)
  with j show "samples_from clk n 0 tt ! j = kept_samples clk n ! j"
    by (simp add: samples_from_def add.commute)
qed

lemma length_kept_samples: "length (kept_samples clk n) = 100"
  by (simp add: kept_samples_def deltas_def)

lemma inner_outer_eq: "(inner_loop stmts ^^ 120) w = last (chain stmts w)"
  by (simp add: inner_loop_def chain_def all_stmts_def last_trace_stmts
      run_stmts_concat_replicate funpow_mult del: last.simps)

lemma measure_loop_0:
  "length tt = 100 \<Longrightarrow>
     measure_loop clk stmts 0 (w, tt, n) = Some (last (chain stmts w), kept_samples clk n, n + 240)"
  by (simp add: measure_loop_from samples_from_0 inner_outer_eq del: last.simps)

lemma qsort_kept_samples:
  "qsort (kept_samples clk n) 100 cmp_u64 = sort (kept_samples clk n)"
  by (simp add: qsort_cmp_u64 length_kept_samples)

lemma load_median:
  "load (sort (kept_samples clk n)) 50 = Some (median_cost clk n)"
  by (simp add: load_def median_cost_def length_kept_samples)

lemma chain_not_Nil: "chain stmts w \<noteq> []"
  by (simp add: chain_def)

lemma last_chain32: "last (chain32 st) = last (chain muls20 (start32 st))"
  by (simp add: chain32_def chain_not_Nil del: last.simps)

lemmas harness_simps =
  measure_loop_0 qsort_kept_samples load_median length_kept_samples

section \<open>The runs of \<open>main\<close> with one argument\<close>

lemma main_run_int128:
  assumes "length argv = 2"
  shows "main fp True clk junk argv =
    Some \<lparr>stdout =
            [Printf_f ''32x32->32 muls:  %7.3f'' (fdiv fp (of_u64 fp (median_cost clk 0)) (dconst fp 20000)),
             Printf_f ''64x64->64 muls:  %7.3f'' (fdiv fp (of_u64 fp (median_cost clk 240)) (dconst fp 20000)),
             Printf_f ''64x64->128 muls: %7.3f'' (fdiv fp (of_u64 fp (median_cost clk 480)) (dconst fp 8000)),
             Printf_u ''(%u)'' (unat (fold_bytes (fst (last (chain128 (atoi (argv ! 1)))))))],
          stderr = [], exit_status = 0, cycle_reads = 720\<rparr>"
  using assms
  by (simp add: main_def harness_simps chain128_def chain64_def last_chain32 Let_def
      del: last.simps)

lemma main_run_no_int128:
  assumes "length argv = 2"
  shows "main fp False clk junk argv =
    Some \<lparr>stdout =
            [Printf_f ''32x32->32 muls:  %7.3f'' (fdiv fp (of_u64 fp (median_cost clk 0)) (dconst fp 20000)),
             Printf_f ''64x64->64 muls:  %7.3f'' (fdiv fp (of_u64 fp (median_cost clk 240)) (dconst fp 20000)),
             Printf_u ''(%u)'' (unat (fold_bytes (fst (last (chain64 (atoi (argv ! 1)))))))],
          stderr = [], exit_status = 0, cycle_reads = 480\<rparr>"
  using assms
  by (simp add: main_def harness_simps chain64_def last_chain32 Let_def
      del: last.simps)

lemma ucast_byte: "(ucast (ucast (v::u64) :: 8 word) :: u32) = take_bit 8 (ucast v :: u32)"
  by (simp add: unsigned_ucast_eq)

lemma and_0xFF: "(w :: u32) AND 0xFF = take_bit 8 w"
  by (simp add: take_bit_eq_mask mask_eq_exp_minus_1)

lemma funpow8: "(f ^^ 8) s = f (f (f (f (f (f (f (f s)))))))"
  by (simp add: eval_nat_numeral funpow_swap1)

lemma fold_bytes_xor: "fold_bytes x64 = ucast (xor_of_bytes x64)"
  by (simp add: fold_bytes_def for_loop_funpow funpow8 xor_of_bytes_def byte_of_def
      unsigned_xor_eq ucast_byte and_0xFF xor.assoc)

lemma fold_bytes_le: "unat (fold_bytes x64) \<le> 255"
proof -
  have "unat (ucast (xor_of_bytes x64) :: u32) = unat (xor_of_bytes x64)"
    by (simp add: unsigned_ucast_eq take_bit_nat_eq_self unsigned_less [THEN less_trans])
  also have "\<dots> < 2 ^ LENGTH(8)" by (rule unsigned_less)
  finally show ?thesis by (simp add: fold_bytes_xor)
qed

section \<open>The chains for the arguments 0, 1 and 3\<close>

lemma trace_stmts_inv:
  assumes "P s" and "\<And>f t. f \<in> set fs \<Longrightarrow> P t \<Longrightarrow> P (f t)"
  shows "\<forall>t\<in>set (trace_stmts fs s). P t"
  using assms
proof (induction fs arbitrary: s)
  case Nil
  then show ?case by simp
next
  case (Cons f fs)
  have "P (f s)" using Cons.prems by simp
  moreover have "\<forall>t\<in>set (trace_stmts fs (f s)). P t"
    using Cons.IH [of "f s"] Cons.prems \<open>P (f s)\<close> by simp
  ultimately show ?case by simp
qed

lemma set_all_stmts: "set (all_stmts stmts) \<subseteq> set stmts"
  by (auto simp: all_stmts_def)

lemma chain_inv:
  assumes "P w" and "\<And>f t. f \<in> set stmts \<Longrightarrow> P t \<Longrightarrow> P (f t)"
  shows "\<forall>t\<in>set (chain stmts w). P t"
proof -
  have "\<forall>t\<in>set (trace_stmts (all_stmts stmts) w). P t"
    using assms set_all_stmts [of stmts] by (intro trace_stmts_inv) auto
  with assms(1) show ?thesis by (simp add: chain_def)
qed

lemma last_chain_inv:
  assumes "P w" and "\<And>f t. f \<in> set stmts \<Longrightarrow> P t \<Longrightarrow> P (f t)"
  shows "P (last (chain stmts w))"
  using chain_inv [of P w stmts] assms chain_not_Nil [of stmts w] last_in_set by blast

lemma set_muls20: "set muls20 = {mul_x, mul_y}"
  by (auto simp: muls20_def)

lemma set_stmts128:
  "set (stmts128 xo yo) = {xor_x xo, xor_y yo, mulhi_x, mulhi_y}"
  by (auto simp: stmts128_def mulhis8_def)

lemma muls20_inv:
  assumes "P w" and "\<And>t. P t \<Longrightarrow> P (mul_x t)" and "\<And>t. P t \<Longrightarrow> P (mul_y t)"
  shows "\<forall>t\<in>set (chain muls20 w). P t"
  using assms by (intro chain_inv) (auto simp: set_muls20)

lemma funpow_fixed: "f s = s \<Longrightarrow> (f ^^ k) s = s"
  by (induction k) simp_all

lemma prepare32_inv:
  assumes "P (word_of_int st, word_of_int st)" and "\<And>t. P t \<Longrightarrow> P (mul_y t)"
  shows "\<forall>t\<in>set (prepare32 st). P t"
proof -
  have "\<forall>t\<in>set (trace_stmts (replicate 100 mul_y) (word_of_int st, word_of_int st)). P t"
    using assms by (intro trace_stmts_inv) auto
  with assms(1) show ?thesis by (simp add: prepare32_def)
qed

lemma start32_fixed:
  assumes "mul_y (word_of_int st, word_of_int st) = (c, c)" "word_of_int st = c"
  shows "start32 st = (c, c)"
  using assms by (simp add: start32_def for_loop_funpow funpow_fixed)

lemma chain32_const:
  assumes "word_of_int st = c" "c * c = c"
  shows "\<forall>t\<in>set (chain32 st). t = (c, c)"
proof -
  have my: "mul_y (c, c) = (c, c)" and mx: "mul_x (c, c) = (c, c)"
    using assms by (simp_all add: mul_x_def mul_y_def)
  have 1: "\<forall>t\<in>set (prepare32 st). t = (c, c)"
    using assms my by (intro prepare32_inv) simp_all
  have "start32 st = (c, c)"
    using assms my by (intro start32_fixed) simp_all
  then have 2: "\<forall>t\<in>set (chain muls20 (start32 st)). t = (c, c)"
    using mx my by (intro muls20_inv) simp_all
  from 1 2 show ?thesis by (auto simp: chain32_def)
qed

lemma last_const:
  assumes "\<forall>t\<in>set xs. t = v" "xs \<noteq> []"
  shows "last xs = v"
  using assms last_in_set by blast

lemma chain32_not_Nil: "chain32 st \<noteq> []"
  by (simp add: chain32_def chain_not_Nil)

lemma chain64_const:
  assumes "word_of_int st = (c :: u32)" "c * c = c" "ucast c = (d :: u64)" "d * d = d"
  shows "\<forall>t\<in>set (chain64 st). t = (d, d)"
proof -
  have "last (chain32 st) = (c, c)"
    using chain32_const [OF assms(1,2)] chain32_not_Nil by (rule last_const)
  then have "start64 (fst (last (chain32 st))) = (d, d)"
    using assms by (simp add: start64_def)
  moreover have "mul_y (d, d) = (d, d)" "mul_x (d, d) = (d, d)"
    using assms by (simp_all add: mul_x_def mul_y_def)
  ultimately show ?thesis
    unfolding chain64_def by (intro muls20_inv) simp_all
qed

lemma atoi_seeds: "atoi ''0'' = 0" "atoi ''1'' = 1" "atoi ''3'' = 3"
  by (simp_all add: atoi_def isspace_def isdigit_def)

lemma seed0_32: "\<forall>t\<in>set (chain32 0). t = (0, 0)"
  by (rule chain32_const) simp_all

lemma seed0_64: "\<forall>t\<in>set (chain64 0). t = (0, 0)"
  by (rule chain64_const [where c = 0]) simp_all

lemma seed1_32: "\<forall>t\<in>set (chain32 1). t = (1, 1)"
  by (rule chain32_const) simp_all

lemma seed1_64: "\<forall>t\<in>set (chain64 1). t = (1, 1)"
  by (rule chain64_const [where c = 1]) simp_all

lemma chain64_not_Nil: "chain64 st \<noteq> []"
  by (simp add: chain64_def chain_not_Nil)

lemma mulhi_small: "mulhi 0 b = 0" "mulhi a 0 = 0" "mulhi 1 1 = 0"
  by (simp_all add: mulhi_def)

lemma start128_seed0: "start128 (last (chain64 0)) = (0, 0)"
proof -
  have "last (chain64 0) = (0, 0)"
    using seed0_64 chain64_not_Nil by (rule last_const)
  then show ?thesis by (simp add: start128_def)
qed

lemma start128_seed1: "start128 (last (chain64 1)) = (1, 1)"
proof -
  have "last (chain64 1) = (1, 1)"
    using seed1_64 chain64_not_Nil by (rule last_const)
  then show ?thesis by (simp add: start128_def)
qed

lemma seed0_128: "\<forall>t\<in>set (chain128 0). t = (0, 0)"
  unfolding chain128_def Let_def start128_seed0
  by (intro chain_inv) (auto simp: set_stmts128 xor_x_def xor_y_def mulhi_x_def mulhi_y_def mulhi_small)

lemma seed1_128_bit01: "\<forall>t\<in>set (chain128 1). bit01 t"
  unfolding chain128_def Let_def start128_seed1
  by (intro chain_inv)
     (auto simp: bit01_def set_stmts128 xor_x_def xor_y_def mulhi_x_def mulhi_y_def mulhi_small)

lemma bit01_mulhi: "bit01 s \<Longrightarrow> mulhi (fst s) (snd s) = 0 \<and> mulhi (snd s) (fst s) = 0"
  by (auto simp: bit01_def mulhi_small)

lemma both_odd_mul: "both_odd t \<Longrightarrow> both_odd (mul_x t)" "both_odd t \<Longrightarrow> both_odd (mul_y t)"
  by (simp_all add: both_odd_def mul_x_def mul_y_def)

lemma both_odd_nonzero: "both_odd t \<Longrightarrow> fst t \<noteq> 0 \<and> snd t \<noteq> 0"
  by (auto simp: both_odd_def)

lemma funpow_inv: "P s \<Longrightarrow> (\<And>t. P t \<Longrightarrow> P (f t)) \<Longrightarrow> P ((f ^^ k) s)"
  by (induction k) simp_all

lemma start32_both_odd:
  assumes "odd (word_of_int st :: u32)"
  shows "both_odd (start32 st)"
proof -
  have "both_odd ((mul_y ^^ 100) (word_of_int st :: u32, word_of_int st))"
  proof (rule funpow_inv [where P = both_odd])
    show "both_odd (word_of_int st :: u32, word_of_int st)"
      using assms by (simp add: both_odd_def)
  qed (rule both_odd_mul)
  then show ?thesis
    by (auto simp: start32_def for_loop_funpow both_odd_def Let_def split: prod.splits)
qed

lemma chain32_both_odd:
  assumes "odd (word_of_int st :: u32)"
  shows "\<forall>t\<in>set (chain32 st). both_odd t"
proof -
  have 1: "\<forall>t\<in>set (prepare32 st). both_odd t"
    using assms by (intro prepare32_inv both_odd_mul) (simp add: both_odd_def)
  have 2: "\<forall>t\<in>set (chain muls20 (start32 st)). both_odd t"
    using assms by (intro muls20_inv both_odd_mul start32_both_odd)
  from 1 2 show ?thesis by (auto simp: chain32_def)
qed

lemma odd_ucast_up: "odd (ucast (w :: u32) :: u64) = odd w"
  by (simp add: bit_ucast_iff flip: bit_0)

lemma chain64_both_odd:
  assumes "odd (word_of_int st :: u32)"
  shows "\<forall>t\<in>set (chain64 st). both_odd t"
proof -
  have "both_odd (last (chain32 st))"
    using chain32_both_odd [OF assms] chain32_not_Nil last_in_set by blast
  then have "both_odd (start64 (fst (last (chain32 st))))"
    by (simp add: start64_def both_odd_def odd_ucast_up Let_def)
  then show ?thesis
    unfolding chain64_def by (intro muls20_inv both_odd_mul)
qed

lemma all_stmts_unfold: "all_stmts stmts = stmts @ concat (replicate 119999 stmts)"
proof -
  have "(120 * 1000 :: nat) = Suc 119999" by simp
  then show ?thesis unfolding all_stmts_def by (simp only: replicate_Suc concat.simps)
qed

lemma trace_stmts_Cons_append: "trace_stmts ((f # fs) @ gs) s = f s # trace_stmts (fs @ gs) (f s)"
  by simp

lemma chain_nth_0: "chain stmts w ! 0 = w"
  by (simp add: chain_def)

lemma chain_nth_1: "stmts = f # fs \<Longrightarrow> chain stmts w ! Suc 0 = f w"
  by (simp add: chain_def all_stmts_unfold)

lemma chain_muls20_nth_1: "chain muls20 w ! Suc 0 = mul_x w"
  unfolding muls20_def by (rule chain_nth_1) (rule refl)

lemma mul_y_funpow: "(mul_y ^^ k) (x, y) = (x, y * x ^ k)"
  by (induction k) (simp_all add: mul_y_def algebra_simps)

lemma start32_3: "start32 3 = (1839741811, 1839741811)"
  by (simp add: start32_def for_loop_funpow mul_y_funpow)

lemma mul_x_start32_3: "mul_x (start32 3) = (46020009, 1839741811)"
  by (simp add: start32_3 mul_x_def)

lemma chain32_seed3_varies:
  "fst (chain muls20 (start32 3) ! 0) = 1839741811 \<and> fst (chain muls20 (start32 3) ! 1) = 46020009"
  by (simp add: chain_nth_0 chain_muls20_nth_1 mul_x_start32_3, simp add: start32_3)

text \<open>Casting down is multiplicative.\<close>

lemma ucast_down_mult:
  assumes "is_down (ucast :: 'a::len word \<Rightarrow> 'b::len word)"
  shows "(ucast (a * b :: 'a word) :: 'b word) = ucast a * ucast b"
proof -
  have "(ucast (a * b) :: 'b word) = ucast (word_of_int (uint a * uint b) :: 'a word)"
    by (subst word_mult_def) (rule refl)
  also have "\<dots> = word_of_int (uint a * uint b)"
    using assms by (rule ucast_down_wi)
  also have "\<dots> = word_of_int (uint a) * word_of_int (uint b)"
    by (rule wi_hom_mult [symmetric])
  also have "\<dots> = ucast a * ucast b"
    by (simp only: ucast_eq)
  finally show ?thesis .
qed

lemma is_down_32_4: "is_down (ucast :: u32 \<Rightarrow> 4 word)"
  by (simp add: is_down_def source_size target_size word_size)

lemma is_down_64_4: "is_down (ucast :: u64 \<Rightarrow> 4 word)"
  by (simp add: is_down_def source_size target_size word_size)

lemma down4_mul_32: "down4 (mul_x (s :: u32 \<times> u32)) = mul_x (down4 s)"
   "down4 (mul_y s) = mul_y (down4 s)"
  by (simp_all add: down4_def mul_x_def mul_y_def ucast_down_mult [OF is_down_32_4])

lemma down4_mul_64: "down4 (mul_x (s :: u64 \<times> u64)) = mul_x (down4 s)"
   "down4 (mul_y s) = mul_y (down4 s)"
  by (simp_all add: down4_def mul_x_def mul_y_def ucast_down_mult [OF is_down_64_4])

lemma down4_body_32: "down4 (run_stmts muls20 (s :: u32 \<times> u32)) = run_stmts muls20 (down4 s)"
  by (simp add: muls20_def run_stmts_def down4_mul_32)

lemma down4_body_64: "down4 (run_stmts muls20 (s :: u64 \<times> u64)) = run_stmts muls20 (down4 s)"
  by (simp add: muls20_def run_stmts_def down4_mul_64)

lemma down4_funpow_32:
  "down4 ((run_stmts muls20 ^^ k) (s :: u32 \<times> u32)) = (run_stmts muls20 ^^ k) (down4 s)"
  by (induction k) (simp_all add: down4_body_32)

lemma last_chain_funpow: "last (chain stmts w) = (run_stmts stmts ^^ 120000) w"
  using inner_outer_eq [of stmts w] by (simp add: inner_loop_def funpow_mult)

lemma funpow3: "(f ^^ 3) s = f (f (f s))"
  by (simp add: eval_nat_numeral)

lemma body4_steps:
  "run_stmts muls20 (3 :: 4 word, 3 :: 4 word) = (9, 11)"
  "run_stmts muls20 (9 :: 4 word, 11 :: 4 word) = (3, 1)"
  "run_stmts muls20 (3 :: 4 word, 1 :: 4 word) = (3, 3)"
  by code_simp+

lemma body4_period: "(run_stmts muls20 ^^ 3) (3 :: 4 word, 3 :: 4 word) = (3, 3)"
  by (simp only: funpow3 body4_steps)

lemma body4_all: "(run_stmts muls20 ^^ 120000) (3 :: 4 word, 3 :: 4 word) = (3, 3)"
proof -
  have "(run_stmts muls20 ^^ (120000 mod 3)) (3 :: 4 word, 3 :: 4 word)
          = (run_stmts muls20 ^^ 120000) (3, 3)"
    using body4_period by (rule funpow_mod_eq)
  then show ?thesis by simp
qed

lemma down4_end32_seed3: "down4 (last (chain32 3)) = (3, 3)"
proof -
  have "down4 (start32 3) = (3, 3)"
    by (simp add: start32_3 down4_def)
  then show ?thesis
    by (simp add: last_chain32 last_chain_funpow down4_funpow_32 body4_all del: last.simps)
qed

lemma ucast_32_64_4: "(ucast (ucast (w :: u32) :: u64) :: 4 word) = ucast w"
  by (rule ucast_up_ucast) (simp add: is_up_def source_size target_size word_size)

lemma down4_start64_seed3: "down4 (start64 (fst (last (chain32 3)))) = (11, 11)"
proof -
  have "(ucast (fst (last (chain32 3))) :: 4 word) = 3"
    using down4_end32_seed3 by (simp add: down4_def)
  then show ?thesis
    by (simp add: start64_def down4_def Let_def ucast_down_mult [OF is_down_64_4] ucast_32_64_4)
qed

lemma chain64_seed3_varies: "fst (chain64 3 ! 1) \<noteq> fst (chain64 3 ! 0)"
proof
  let ?w = "start64 (fst (last (chain32 3)))"
  assume "fst (chain64 3 ! 1) = fst (chain64 3 ! 0)"
  then have "fst (mul_x ?w) = fst ?w"
    by (simp add: chain64_def chain_nth_0 chain_muls20_nth_1)
  then have eq: "fst (down4 (mul_x ?w)) = fst (down4 ?w)"
    by (simp add: down4_def)
  have "down4 (mul_x ?w) = mul_x (11, 11)"
    by (simp only: down4_mul_64 down4_start64_seed3)
  then have "fst (down4 (mul_x ?w)) = 9"
    by (simp add: mul_x_def)
  with eq show False
    by (simp add: down4_start64_seed3)
qed

section \<open>The reduction of the samples and the output\<close>

lemma kept_samples_upt: "kept_samples clk n = map (delta clk n) [20..<120]"
  by (simp add: kept_samples_def deltas_def drop_map del: upt_rec_numeral)




lemma length_concat_replicate: "length (concat (replicate k xs)) = k * length xs"
  by (induction k) simp_all

lemma length_trace_stmts: "length (trace_stmts fs s) = length fs"
  by (induction fs arbitrary: s) simp_all

lemma length_chain: "length (chain stmts w) = Suc (120000 * length stmts)"
  by (simp add: chain_def all_stmts_def length_trace_stmts length_concat_replicate)



lemma delta_clk_wrap: "even n \<Longrightarrow> delta clk_wrap n i = - 2"
  by (simp add: delta_def clk_wrap_def)

lemma median_clk_wrap:
  "median_cost clk_wrap 0 = - 2" "median_cost clk_wrap 240 = - 2" "median_cost clk_wrap 480 = - 2"
  unfolding median_cost_def kept_samples_upt by (simp_all add: delta_clk_wrap)

lemma ilog2_numeral:
  "ilog2 (numeral k) = (if numeral k < (2::nat) then 0 else Suc (ilog2 (numeral k div 2)))"
  by (rule ilog2.simps)

lemma ilog2_small: "ilog2 0 = 0" "ilog2 1 = 0" "ilog2 (Suc 0) = 0"
  by (simp_all add: ilog2.simps)

lemmas round53_eval =
  round53_def fl2_def pow2_def round_half_even_def Let_def ilog2_numeral ilog2_small

text \<open>
  The instance on the largest delta but one: the conversion rounds \<open>2^64 - 2\<close> up to
  \<open>2^64\<close>, and the two quotients are rounded to 53 bits.
\<close>

lemma ieee_double_wrap:
  "fdiv ieee_double (of_u64 ieee_double (- 2)) (dconst ieee_double 20000) = 7378697629483821 / 8"
  "fdiv ieee_double (of_u64 ieee_double (- 2)) (dconst ieee_double 8000) = 2305843009213694"
proof -
  have u: "real (unat (- 2 :: u64)) = 18446744073709551614"
    by simp
  have c: "round53 18446744073709551614 = 18446744073709551616"
    "round53 20000 = 20000" "round53 8000 = 8000"
    by (simp_all add: round53_eval)
  have q: "round53 (18446744073709551616 / 20000) = 7378697629483821 / 8"
    "round53 (18446744073709551616 / 8000) = 2305843009213694"
    by (simp_all add: round53_eval)
  show "fdiv ieee_double (of_u64 ieee_double (- 2)) (dconst ieee_double 20000)
          = 7378697629483821 / 8"
    unfolding ieee_double_def by (simp only: double_ops.simps of_nat_numeral u c q)
  show "fdiv ieee_double (of_u64 ieee_double (- 2)) (dconst ieee_double 8000)
          = 2305843009213694"
    unfolding ieee_double_def by (simp only: double_ops.simps of_nat_numeral u c q)
qed

lemma unat_fold_bytes: "unat (fold_bytes x64) = unat (xor_of_bytes x64)"
  by (simp add: fold_bytes_xor unsigned_ucast_eq take_bit_nat_eq_self
      unsigned_less [THEN less_trans])

lemma last_chain128_seed0: "last (chain128 0) = (0, 0)"
  using seed0_128 by (rule last_const) (simp add: chain128_def chain_not_Nil Let_def)

text \<open>
  C6. In a run with one argument the value printed for each workload is the quotient, in
  the arithmetic of \<open>double\<close>, of the median delta of that workload converted to \<open>double\<close>
  (the measurements start after 0, 240 and 480 counter reads) by the constant that is
  1000, the number of inner iterations, times the number of multiplications of the inner
  body: 20 for the 32-bit and the 64-bit workload, 8 for the one producing 128 bits.
\<close>

theorem cycles_per_operation:
  assumes "length argv = 2"
  shows "map_option (butlast \<circ> stdout) (main fp True clk junk argv) =
      Some [Printf_f ''32x32->32 muls:  %7.3f''
              (fdiv fp (of_u64 fp (median_cost clk 0))
                 (dconst fp (1000 * length (muls20 :: (u32 \<times> u32 \<Rightarrow> u32 \<times> u32) list)))),
            Printf_f ''64x64->64 muls:  %7.3f''
              (fdiv fp (of_u64 fp (median_cost clk 240))
                 (dconst fp (1000 * length (muls20 :: (u64 \<times> u64 \<Rightarrow> u64 \<times> u64) list)))),
            Printf_f ''64x64->128 muls: %7.3f''
              (fdiv fp (of_u64 fp (median_cost clk 480)) (dconst fp (1000 * length mulhis8)))]
    \<and> map_option (butlast \<circ> stdout) (main fp False clk junk argv) =
      Some [Printf_f ''32x32->32 muls:  %7.3f''
              (fdiv fp (of_u64 fp (median_cost clk 0))
                 (dconst fp (1000 * length (muls20 :: (u32 \<times> u32 \<Rightarrow> u32 \<times> u32) list)))),
            Printf_f ''64x64->64 muls:  %7.3f''
              (fdiv fp (of_u64 fp (median_cost clk 240))
                 (dconst fp (1000 * length (muls20 :: (u64 \<times> u64 \<Rightarrow> u64 \<times> u64) list))))]
    \<and> length (muls20 :: (u32 \<times> u32 \<Rightarrow> u32 \<times> u32) list) = 20
    \<and> length (muls20 :: (u64 \<times> u64 \<Rightarrow> u64 \<times> u64) list) = 20
    \<and> length mulhis8 = 8"
  using assms
  by (simp add: main_run_int128 main_run_no_int128 muls20_def mulhis8_def)

theorem cycles_per_operation_witness:
  "length [''test_cycle'', ''3''] = 2
   \<and> map_option (butlast \<circ> stdout)
         (main ieee_double True clk_wrap (\<lambda>k. 0) [''test_cycle'', ''3'']) =
      Some [Printf_f ''32x32->32 muls:  %7.3f'' (7378697629483821 / 8),
            Printf_f ''64x64->64 muls:  %7.3f'' (7378697629483821 / 8),
            Printf_f ''64x64->128 muls: %7.3f'' 2305843009213694]"
  using cycles_per_operation [where argv = "[''test_cycle'', ''3'']" and clk = clk_wrap
      and junk = "\<lambda>k. 0" and fp = ieee_double]
  by (simp add: median_clk_wrap ieee_double_wrap muls20_def mulhis8_def)

text \<open>
  C8. A run with exactly one argument, whatever the argument, does not fault, prints
  nothing to the error stream and exits with status 0. With the 128-bit type it reads the
  counter 720 times and prints three lines with the format \<open>%7.3f\<close>, each carrying the
  cycles per operation of its workload (the median delta of that workload, converted and
  divided in \<open>double\<close> by 20000, 20000 and 8000), then one line with, in parentheses, the
  byte folded from the final \<open>x64\<close>, which is at most 255. Without the 128-bit type it
  reads the counter 480 times and prints the first two lines and the byte line.
\<close>

theorem driver_output:
  assumes "length argv = 2"
  shows "main fp True clk junk argv =
      Some \<lparr>stdout =
              [Printf_f ''32x32->32 muls:  %7.3f'' (fdiv fp (of_u64 fp (median_cost clk 0)) (dconst fp 20000)),
               Printf_f ''64x64->64 muls:  %7.3f'' (fdiv fp (of_u64 fp (median_cost clk 240)) (dconst fp 20000)),
               Printf_f ''64x64->128 muls: %7.3f'' (fdiv fp (of_u64 fp (median_cost clk 480)) (dconst fp 8000)),
               Printf_u ''(%u)'' (unat (fold_bytes (fst (last (chain128 (atoi (argv ! 1)))))))],
            stderr = [], exit_status = 0, cycle_reads = 720\<rparr>
    \<and> unat (fold_bytes (fst (last (chain128 (atoi (argv ! 1)))))) \<le> 255
    \<and> main fp False clk junk argv =
      Some \<lparr>stdout =
              [Printf_f ''32x32->32 muls:  %7.3f'' (fdiv fp (of_u64 fp (median_cost clk 0)) (dconst fp 20000)),
               Printf_f ''64x64->64 muls:  %7.3f'' (fdiv fp (of_u64 fp (median_cost clk 240)) (dconst fp 20000)),
               Printf_u ''(%u)'' (unat (fold_bytes (fst (last (chain64 (atoi (argv ! 1)))))))],
            stderr = [], exit_status = 0, cycle_reads = 480\<rparr>
    \<and> unat (fold_bytes (fst (last (chain64 (atoi (argv ! 1)))))) \<le> 255"
  using main_run_int128 [OF assms, of fp clk junk] main_run_no_int128 [OF assms, of fp clk junk]
    fold_bytes_le [of "fst (last (chain128 (atoi (argv ! 1))))"]
    fold_bytes_le [of "fst (last (chain64 (atoi (argv ! 1))))"]
  by (simp del: last.simps)

theorem driver_output_witness:
  "length [''test_cycle'', ''0''] = 2
   \<and> main ieee_double True clk_wrap (\<lambda>k. 0) [''test_cycle'', ''0''] =
      Some \<lparr>stdout =
              [Printf_f ''32x32->32 muls:  %7.3f'' (7378697629483821 / 8),
               Printf_f ''64x64->64 muls:  %7.3f'' (7378697629483821 / 8),
               Printf_f ''64x64->128 muls: %7.3f'' 2305843009213694,
               Printf_u ''(%u)'' 0],
            stderr = [], exit_status = 0, cycle_reads = 720\<rparr>"
proof -
  have "unat (fold_bytes 0) = 0"
    by (simp add: unat_fold_bytes xor_of_bytes_def byte_of_def)
  then show ?thesis
    using driver_output [where argv = "[''test_cycle'', ''0'']" and clk = clk_wrap
        and junk = "\<lambda>k. 0" and fp = ieee_double]
    by (simp add: median_clk_wrap ieee_double_wrap atoi_seeds last_chain128_seed0
        del: last.simps)
qed

text \<open>
  C9. The value computed by the last loop of \<open>main\<close> from a 64-bit value is the
  exclusive-or of its eight bytes and is at most 255; the value printed on the last line
  is the one computed from the final \<open>x64\<close>: the last value of the first chain variable of
  the 128-bit workload, or of the 64-bit workload in a build without the 128-bit type.
\<close>

theorem printed_byte:
  assumes "length argv = 2"
  shows "fold_bytes x64 = ucast (xor_of_bytes x64)
    \<and> unat (fold_bytes x64) \<le> 255
    \<and> map_option (last \<circ> stdout) (main fp True clk junk argv) =
        Some (Printf_u ''(%u)'' (unat (xor_of_bytes (fst (last (chain128 (atoi (argv ! 1))))))))
    \<and> map_option (last \<circ> stdout) (main fp False clk junk argv) =
        Some (Printf_u ''(%u)'' (unat (xor_of_bytes (fst (last (chain64 (atoi (argv ! 1))))))))"
proof -
  have "map_option (last \<circ> stdout) (main fp True clk junk argv) =
        Some (Printf_u ''(%u)'' (unat (xor_of_bytes (fst (last (chain128 (atoi (argv ! 1))))))))"
    by (simp add: main_run_int128 [OF assms] unat_fold_bytes)
  moreover have "map_option (last \<circ> stdout) (main fp False clk junk argv) =
        Some (Printf_u ''(%u)'' (unat (xor_of_bytes (fst (last (chain64 (atoi (argv ! 1))))))))"
    by (simp add: main_run_no_int128 [OF assms] unat_fold_bytes)
  ultimately show ?thesis
    using fold_bytes_xor [of x64] fold_bytes_le [of x64] by blast
qed

theorem printed_byte_witness:
  "length [''test_cycle'', ''0''] = 2
   \<and> fold_bytes 0x0102030405060708 = 8
   \<and> map_option (last \<circ> stdout) (main ieee_double True clk_sq (\<lambda>k. 0) [''test_cycle'', ''0'']) =
        Some (Printf_u ''(%u)'' 0)"
proof -
  have "xor_of_bytes 0x0102030405060708 = 8" "xor_of_bytes 0 = 0"
    by (simp_all add: xor_of_bytes_def byte_of_def)
  then show ?thesis
    using printed_byte [where argv = "[''test_cycle'', ''0'']" and clk = clk_sq
        and junk = "\<lambda>k. 0" and fp = ieee_double and ?x64.0 = "0x0102030405060708"]
    by (simp add: atoi_seeds last_chain128_seed0 del: last.simps)
qed

section \<open>Dependence on the seed\<close>

lemma chain128_not_Nil: "chain128 st \<noteq> []"
  by (simp add: chain128_def chain_not_Nil Let_def)

lemma main_exits_0:
  assumes "length argv = 2"
  shows "\<exists>r. main fp has_int128 clk junk argv = Some r \<and> exit_status r = 0"
  using main_run_int128 [OF assms, of fp clk junk] main_run_no_int128 [OF assms, of fp clk junk]
  by (cases has_int128) simp_all

lemma chain128_seed1_prefix:
  "chain128 1 ! 3 = (0, 0)"
  by (simp add: chain128_def Let_def start128_seed1 chain_def all_stmts_unfold stmts128_def
      mulhis8_def xor_x_def xor_y_def mulhi_x_def mulhi_y_def mulhi_small)

text \<open>
  Whatever the argument, the first statement of the third measurement, \<open>x64 ^= x64orig\<close>,
  meets \<open>x64\<close> equal to \<open>x64orig\<close> and sets it to zero.
\<close>

lemma chain128_first_xor: "fst (chain128 st ! 1) = 0"
proof -
  have "chain (stmts128 xo yo) (xo, yo) ! Suc 0 = xor_x xo (xo, yo)" for xo yo
    unfolding stmts128_def append_Cons by (rule chain_nth_1) (rule refl)
  from this [of "fst (start128 (last (chain64 st)))" "snd (start128 (last (chain64 st)))"]
  show ?thesis
    by (simp add: chain128_def Let_def xor_x_def)
qed

lemma length_chain128: "length (chain128 st) = 1200001"
  by (simp add: chain128_def Let_def length_chain stmts128_def mulhis8_def)

text \<open>
  C3, as amended. With the argument \<open>0\<close> every value of both chain variables is 0 in the
  three workloads and the run ends with exit status 0 (the only divisions of the program
  are by the constants 20000.0 and 8000.0). With \<open>1\<close> every value is 1 in the 32-bit and
  in the 64-bit workload; in the workload producing 128 bits the variables only take the
  values 0 and 1 and every multiplication yields 0, the high half of 1 times 1. With \<open>3\<close>
  every value of the 32-bit and of the 64-bit workload is nonzero, and the values vary:
  the first chain variable changes with the first multiplication of each of the two
  measurements. The chains are those of the run: by \<open>measure_loop_0\<close> a measurement ends
  in the last state of its chain, and \<open>main\<close> continues from there.
\<close>

theorem seed_dependence:
  "(\<forall>s\<in>set (chain32 (atoi ''0'')). s = (0, 0))
   \<and> (\<forall>s\<in>set (chain64 (atoi ''0'')). s = (0, 0))
   \<and> (\<forall>s\<in>set (chain128 (atoi ''0'')). s = (0, 0))
   \<and> (\<exists>r. main fp has_int128 clk junk [prog, ''0''] = Some r \<and> exit_status r = 0)
   \<and> (\<forall>s\<in>set (chain32 (atoi ''1'')). s = (1, 1))
   \<and> (\<forall>s\<in>set (chain64 (atoi ''1'')). s = (1, 1))
   \<and> (\<forall>s\<in>set (chain128 (atoi ''1'')).
         (fst s = 0 \<or> fst s = 1) \<and> (snd s = 0 \<or> snd s = 1)
         \<and> mulhi (fst s) (snd s) = 0 \<and> mulhi (snd s) (fst s) = 0)
   \<and> mulhi 1 1 = 0
   \<and> (\<forall>s\<in>set (chain32 (atoi ''3'')). fst s \<noteq> 0 \<and> snd s \<noteq> 0)
   \<and> (\<forall>s\<in>set (chain64 (atoi ''3'')). fst s \<noteq> 0 \<and> snd s \<noteq> 0)
   \<and> fst (chain muls20 (start32 (atoi ''3'')) ! 0) = 1839741811
   \<and> fst (chain muls20 (start32 (atoi ''3'')) ! 1) = 46020009
   \<and> fst (chain64 (atoi ''3'') ! 1) \<noteq> fst (chain64 (atoi ''3'') ! 0)"
proof -
  have odd3: "odd (word_of_int 3 :: u32)" by simp
  have s1: "\<forall>s\<in>set (chain128 1).
         (fst s = 0 \<or> fst s = 1) \<and> (snd s = 0 \<or> snd s = 1)
         \<and> mulhi (fst s) (snd s) = 0 \<and> mulhi (snd s) (fst s) = 0"
    using seed1_128_bit01 bit01_mulhi by (auto simp: bit01_def)
  have s3a: "\<forall>s\<in>set (chain32 3). fst s \<noteq> 0 \<and> snd s \<noteq> 0"
    using chain32_both_odd [OF odd3] both_odd_nonzero by blast
  have s3b: "\<forall>s\<in>set (chain64 3). fst s \<noteq> 0 \<and> snd s \<noteq> 0"
    using chain64_both_odd [OF odd3] both_odd_nonzero by blast
  have m: "\<exists>r. main fp has_int128 clk junk [prog, ''0''] = Some r \<and> exit_status r = 0"
    by (rule main_exits_0) simp
  show ?thesis
    unfolding atoi_seeds
    using seed0_32 seed0_64 seed0_128 m seed1_32 seed1_64 s1 mulhi_small(3) s3a s3b
      chain32_seed3_varies chain64_seed3_varies
    by (intro conjI) (blast+)?
qed

theorem seed_dependence_witness:
  "last (chain32 (atoi ''0'')) = (0, 0)
   \<and> last (chain128 (atoi ''0'')) = (0, 0)
   \<and> last (chain64 (atoi ''1'')) = (1, 1)
   \<and> mulhi (fst (last (chain128 (atoi ''1'')))) (snd (last (chain128 (atoi ''1'')))) = 0
   \<and> fst (last (chain64 (atoi ''3''))) \<noteq> 0
   \<and> (\<exists>r. main ieee_double True clk_sq (\<lambda>k. 0) [''test_cycle'', ''0''] = Some r \<and> exit_status r = 0)"
proof -
  note sd = seed_dependence [where ?has_int128.0 = True and clk = clk_sq and junk = "\<lambda>k. 0"
      and fp = ieee_double
      and prog = "''test_cycle''"]
  have "last (chain32 (atoi ''0'')) \<in> set (chain32 (atoi ''0''))"
    "last (chain128 (atoi ''0'')) \<in> set (chain128 (atoi ''0''))"
    "last (chain64 (atoi ''1'')) \<in> set (chain64 (atoi ''1''))"
    "last (chain128 (atoi ''1'')) \<in> set (chain128 (atoi ''1''))"
    "last (chain64 (atoi ''3'')) \<in> set (chain64 (atoi ''3''))"
    by (simp_all add: chain32_not_Nil chain64_not_Nil chain128_not_Nil)
  with sd show ?thesis by blast
qed

text \<open>
  The claim C3 as stated fails for the argument \<open>1\<close>: in the workload producing 128 bits
  the state after the first multiplication is \<open>(0, 0)\<close>, not \<open>(1, 1)\<close>.
\<close>

theorem seed1_chain128_not_constant:
  "3 < length (chain128 (atoi ''1'')) \<and> chain128 (atoi ''1'') ! 3 = (0, 0)"
  by (simp add: atoi_seeds length_chain128 chain128_seed1_prefix)

end
